theory Spec2Isabelle
  imports Main "HOL-Library.AList"
begin

section \<open>Conditional elements of pyknow (\<^verbatim>\<open>pyknow/rule.py\<close>)\<close>

subsection \<open>Values exchanged with the working memory\<close>

text \<open>
  The exceptions of the module. \<^verbatim>\<open>Rule.get_activations\<close> raises \<^verbatim>\<open>ValueError\<close> for an
  argument that is not a \<^verbatim>\<open>FactList\<close>, \<^verbatim>\<open>Rule.__call__\<close> raises \<^verbatim>\<open>AttributeError\<close> when no
  function is bound; the other two are raised by the Python operations the module uses
  (an attribute that does not exist, \<^verbatim>\<open><\<close> between unorderable values, \<^verbatim>\<open>xs[0]\<close> on an empty
  list).
\<close>

datatype error = ValueError | AttributeError | TypeError | IndexError

text \<open>
  \<^verbatim>\<open>factlist.matches(cond)\<close> returns a list whose elements are meant to be pairs
  \<^verbatim>\<open>(idx, context)\<close>. \<open>Item k c\<close> is such a pair; the second component is \<open>None\<close> for
  Python's \<^verbatim>\<open>None\<close> (the result of \<^verbatim>\<open>dict.get\<close> on a missing key). \<open>EmptyTuple\<close> is
  the tuple \<^verbatim>\<open>()\<close>, an element that is not a pair: \<^verbatim>\<open>dict\<close> rejects it with \<^verbatim>\<open>ValueError\<close>.

  An element of \<^verbatim>\<open>Activation.facts\<close> is a fact index, except in \<^verbatim>\<open>OR\<close>, whose
  \<^verbatim>\<open>fact[0] for fact in matches\<close> takes the first element of a pattern's whole match
  list: \<open>MatchItem\<close>.
\<close>

datatype 'c key = FactId int | MatchItem "'c item"
and 'c item = Item "'c key" "'c option" | EmptyTuple

text \<open>A pattern (\<^verbatim>\<open>pyknow.fact.Fact\<close>); \<^verbatim>\<open>InitialFact\<close> is the sentinel.\<close>

datatype 'p fact = InitialFact | Fact 'p

text \<open>
  The classes of the module, with their \<^verbatim>\<open>__conds\<close>. A child is a \<^verbatim>\<open>Rule\<close> (subclass)
  instance, a \<^verbatim>\<open>Fact\<close> instance, or something else, which both loops skip
  (\<^verbatim>\<open>if ... elif ...\<close> without \<^verbatim>\<open>else\<close>).
\<close>

datatype 'p ce = Rule "'p cond list" | AND "'p cond list" | NOT "'p cond list" | OR "'p cond list"
and 'p cond = CE "'p ce" | Pattern "'p fact" | Opaque

text \<open>
  Modelled from the spec: \<^verbatim>\<open>pyknow.activation.Activation\<close> is not part of this module. It
  is the record \<^verbatim>\<open>{rule, facts, contexts}\<close>, compared and hashed by structure.
\<close>

datatype ('p, 'c) activation =
  Activation (rule: "'p ce") (facts: "'c key list") (contexts: "('c key \<times> 'c option) list")

text \<open>
  The argument of \<^verbatim>\<open>get_activations\<close>: a \<^verbatim>\<open>FactList\<close>, given by its \<^verbatim>\<open>matches\<close> method, or
  any other object, which may or may not have an attribute \<^verbatim>\<open>matches\<close>. The assignments
  \<^verbatim>\<open>factlist.rule = self\<close>, \<^verbatim>\<open>cond.rule = self\<close> and \<^verbatim>\<open>cond.context = self.context\<close> are
  read by no code of this module and are left out: the working memory answers each
  pattern the same way during one evaluation.
\<close>

datatype ('p, 'c) store =
  FactList "'p fact \<Rightarrow> 'c item list"
| NotFactList "('p fact \<Rightarrow> 'c item list) option"

fun store_matches :: "('p, 'c) store \<Rightarrow> 'p fact \<Rightarrow> error + 'c item list" where
  "store_matches (FactList m) p = Inr (m p)"
| "store_matches (NotFactList (Some m)) p = Inr (m p)"
| "store_matches (NotFactList None) p = Inl AttributeError"

text \<open>\<^verbatim>\<open>Rule.__init__\<close>: \<^verbatim>\<open>if not conds: conds = (InitialFact(),)\<close>.\<close>

definition init_conds :: "'p cond list \<Rightarrow> 'p cond list" where
  "init_conds conds = (if conds = [] then [Pattern InitialFact] else conds)"

subsection \<open>Dictionaries, sorting\<close>

text \<open>
  A \<^verbatim>\<open>dict\<close> is an association list in insertion order; assigning to a key that is
  present overwrites its value in place.
\<close>

definition py_dict :: "('k \<times> 'v) list \<Rightarrow> ('k \<times> 'v) list" where
  "py_dict pairs = fold (\<lambda>(k, v) d. AList.update k v d) pairs []"

text \<open>\<^verbatim>\<open>d.get(k)\<close> where the values of \<open>d\<close> may themselves be \<^verbatim>\<open>None\<close>.\<close>

definition dict_get :: "('k \<times> 'v option) list \<Rightarrow> 'k \<Rightarrow> 'v option" where
  "dict_get d k = (case map_of d k of None \<Rightarrow> None | Some v \<Rightarrow> v)"

text \<open>\<^verbatim>\<open>dict(match)\<close> on a tuple of the product: \<^verbatim>\<open>ValueError\<close> at an element that is not a pair.\<close>

fun dict_of_match :: "'c item list \<Rightarrow> ('c key \<times> 'c option) list \<Rightarrow> error + ('c key \<times> 'c option) list" where
  "dict_of_match [] d = Inr d"
| "dict_of_match (Item k c # xs) d = dict_of_match xs (AList.update k c d)"
| "dict_of_match (EmptyTuple # xs) d = Inl ValueError"

text \<open>
  Python's \<^verbatim>\<open><\<close> on the elements of \<^verbatim>\<open>facts\<close>: integers compare; an integer and a tuple
  do not; tuples compare at their first differing component, a shorter tuple that is a
  prefix being smaller.
  Modelled from the spec: \<^verbatim>\<open>pyknow.fact.Context\<close> is not part of this module. It is a
  mapping from variable names to values, the type parameter \<open>'c\<close>: it can be hashed, so it
  may be part of a dictionary key, and it has no order, so \<^verbatim>\<open><\<close> between two different
  Contexts, or between a Context and \<^verbatim>\<open>None\<close>, raises \<^verbatim>\<open>TypeError\<close>.
\<close>

fun py_lt :: "'c key \<Rightarrow> 'c key \<Rightarrow> error + bool"
and item_lt :: "'c item \<Rightarrow> 'c item \<Rightarrow> error + bool" where
  "py_lt (FactId a) (FactId b) = Inr (a < b)"
| "py_lt (FactId a) (MatchItem y) = Inl TypeError"
| "py_lt (MatchItem x) (FactId b) = Inl TypeError"
| "py_lt (MatchItem x) (MatchItem y) = item_lt x y"
| "item_lt EmptyTuple EmptyTuple = Inr False"
| "item_lt EmptyTuple (Item k c) = Inr True"
| "item_lt (Item k c) EmptyTuple = Inr False"
| "item_lt (Item k c) (Item k' c') =
     (if k \<noteq> k' then py_lt k k' else if c \<noteq> c' then Inl TypeError else Inr False)"

text \<open>\<^verbatim>\<open>sorted\<close>, as an insertion sort that stops at the first comparison that raises.\<close>

fun py_insert :: "'c key \<Rightarrow> 'c key list \<Rightarrow> error + 'c key list" where
  "py_insert x [] = Inr [x]"
| "py_insert x (y # ys) =
     (case py_lt x y of
        Inl e \<Rightarrow> Inl e
      | Inr True \<Rightarrow> Inr (x # y # ys)
      | Inr False \<Rightarrow> (case py_insert x ys of Inl e \<Rightarrow> Inl e | Inr zs \<Rightarrow> Inr (y # zs)))"

fun py_sorted :: "'c key list \<Rightarrow> error + 'c key list" where
  "py_sorted [] = Inr []"
| "py_sorted (x # xs) = (case py_sorted xs of Inl e \<Rightarrow> Inl e | Inr ys \<Rightarrow> py_insert x ys)"

subsection \<open>\<^verbatim>\<open>Rule.get_activations\<close>, \<^verbatim>\<open>NOT.get_activations\<close>, \<^verbatim>\<open>OR.get_activations\<close>\<close>

text \<open>
  The body of \<^verbatim>\<open>for match in product(*matches)\<close>: the \<^verbatim>\<open>ValueError\<close> of \<^verbatim>\<open>dict(match)\<close> is
  suppressed and leaves \<^verbatim>\<open>contexts = {}\<close>; an Activation is yielded when \<^verbatim>\<open>facts\<close> is not
  empty.
\<close>

definition yield_match :: "'p ce \<Rightarrow> 'c item list \<Rightarrow> error + ('p, 'c) activation list" where
  "yield_match self match =
     (case (case dict_of_match match [] of
              Inl ValueError \<Rightarrow> Inr []
            | Inl e \<Rightarrow> Inl e
            | Inr d \<Rightarrow> Inr d) of
        Inl e \<Rightarrow> Inl e
      | Inr ctxs \<Rightarrow>
          (case py_sorted (remdups (map fst ctxs)) of
             Inl e \<Rightarrow> Inl e
           | Inr fs \<Rightarrow> if fs \<noteq> [] then Inr [Activation self fs ctxs] else Inr []))"

fun product_loop :: "'p ce \<Rightarrow> 'c item list list \<Rightarrow> error + ('p, 'c) activation list" where
  "product_loop self [] = Inr []"
| "product_loop self (match # rest) =
     (case yield_match self match of
        Inl e \<Rightarrow> Inl e
      | Inr ys \<Rightarrow> (case product_loop self rest of Inl e \<Rightarrow> Inl e | Inr zs \<Rightarrow> Inr (ys @ zs)))"

text \<open>
  What the conjunction appends for one activation of a composite child: for each fact,
  the one-element list \<^verbatim>\<open>[(fact, dict(act.contexts).get(fact))]\<close>.
\<close>

definition flatten_act :: "('p, 'c) activation \<Rightarrow> 'c item list list" where
  "flatten_act act = map (\<lambda>fact. [Item fact (dict_get (py_dict (contexts act)) fact)]) (facts act)"

text \<open>
  What \<^verbatim>\<open>OR\<close> appends to its \<^verbatim>\<open>matches\<close>: \<^verbatim>\<open>(fact, tuple(context.items()))\<close> for each fact of
  an activation of a composite child, and the whole match list of a pattern.
\<close>

datatype 'c or_match =
  FromAct "'c key" "('c key \<times> 'c option) list"
| FromPattern "'c item list"

definition or_flatten_act :: "('p, 'c) activation \<Rightarrow> 'c or_match list" where
  "or_flatten_act act = map (\<lambda>fact. FromAct fact (py_dict (contexts act))) (facts act)"

text \<open>\<^verbatim>\<open>fact[0]\<close> for an element of \<^verbatim>\<open>matches\<close> in \<^verbatim>\<open>OR\<close>.\<close>

fun elem0 :: "'c or_match \<Rightarrow> error + 'c key" where
  "elem0 (FromAct k cs) = Inr k"
| "elem0 (FromPattern []) = Inl IndexError"
| "elem0 (FromPattern (i # rest)) = Inr (MatchItem i)"

fun elems0 :: "'c or_match list \<Rightarrow> error + 'c key list" where
  "elems0 [] = Inr []"
| "elems0 (x # xs) =
     (case elem0 x of
        Inl e \<Rightarrow> Inl e
      | Inr k \<Rightarrow> (case elems0 xs of Inl e \<Rightarrow> Inl e | Inr ks \<Rightarrow> Inr (k # ks)))"

text \<open>
  The outer loop of \<^verbatim>\<open>OR.get_activations\<close>, \<^verbatim>\<open>for cond in self._Rule__conds\<close>, whose body
  is the inner loop over the same children.
\<close>

fun or_outer :: "('a \<Rightarrow> error + 'a) \<Rightarrow> 'b list \<Rightarrow> 'a \<Rightarrow> error + 'a" where
  "or_outer body [] acc = Inr acc"
| "or_outer body (cond # rest) acc =
     (case body acc of Inl e \<Rightarrow> Inl e | Inr acc' \<Rightarrow> or_outer body rest acc')"

text \<open>
  \<open>enum\<close> is \<^verbatim>\<open>tuple(set(...))\<close>: the order in which Python enumerates the set of the
  yielded Activations depends on their hashes, so it is a parameter.
  \<open>collect_matches\<close> is the loop \<^verbatim>\<open>for cond in self.__conds\<close> of \<^verbatim>\<open>Rule.get_activations\<close>:
  \<open>None\<close> after \<^verbatim>\<open>break\<close>, \<open>Some matches\<close> when the loop reaches its \<^verbatim>\<open>else\<close>.
  \<open>or_inner\<close> is the inner loop of \<^verbatim>\<open>OR.get_activations\<close>, whose \<^verbatim>\<open>break\<close> leaves only
  this loop.
\<close>

fun get_activations ::
    "(('p, 'c) activation list \<Rightarrow> ('p, 'c) activation list) \<Rightarrow> ('p, 'c) store \<Rightarrow> 'p ce
      \<Rightarrow> error + ('p, 'c) activation list"
and Rule_get_activations ::
    "(('p, 'c) activation list \<Rightarrow> ('p, 'c) activation list) \<Rightarrow> ('p, 'c) store \<Rightarrow> 'p ce
      \<Rightarrow> 'p cond list \<Rightarrow> error + ('p, 'c) activation list"
and collect_matches ::
    "(('p, 'c) activation list \<Rightarrow> ('p, 'c) activation list) \<Rightarrow> ('p, 'c) store
      \<Rightarrow> 'p cond list \<Rightarrow> 'c item list list \<Rightarrow> error + 'c item list list option"
and or_inner ::
    "(('p, 'c) activation list \<Rightarrow> ('p, 'c) activation list) \<Rightarrow> ('p, 'c) store
      \<Rightarrow> 'p cond list \<Rightarrow> 'c or_match list \<Rightarrow> error + 'c or_match list"
where
  "get_activations enum factlist (Rule conds) =
     Rule_get_activations enum factlist (Rule conds) conds"
| "get_activations enum factlist (AND conds) =
     Rule_get_activations enum factlist (AND conds) conds"
| "get_activations enum factlist (NOT conds) =
     (case Rule_get_activations enum factlist (NOT conds) conds of
        Inl e \<Rightarrow> Inl e
      | Inr activations \<Rightarrow>
          if activations = [] then
            (case store_matches factlist InitialFact of
               Inl e \<Rightarrow> Inl e
             | Inr [] \<Rightarrow> Inr []
             | Inr (EmptyTuple # rest) \<Rightarrow> Inl ValueError
             | Inr (Item factidx context # rest) \<Rightarrow>
                 Inr [Activation (NOT conds) [factidx] [(factidx, context)]])
          else Inr [])"
| "get_activations enum factlist (OR conds) =
     (case or_outer (\<lambda>matches. or_inner enum factlist conds matches) conds [] of
        Inl e \<Rightarrow> Inl e
      | Inr matches \<Rightarrow>
          if matches \<noteq> [] then
            (case elems0 matches of
               Inl e \<Rightarrow> Inl e
             | Inr fs \<Rightarrow> Inr [Activation (OR conds) fs []])
          else Inr [])"
| "Rule_get_activations enum factlist self conds =
     (case factlist of
        NotFactList other \<Rightarrow> Inl ValueError
      | FactList m \<Rightarrow>
          (case collect_matches enum factlist conds [] of
             Inl e \<Rightarrow> Inl e
           | Inr None \<Rightarrow> Inr (enum [])
           | Inr (Some matches) \<Rightarrow>
               (case product_loop self (product_lists matches) of
                  Inl e \<Rightarrow> Inl e
                | Inr acts \<Rightarrow> Inr (enum acts))))"
| "collect_matches enum factlist [] matches = Inr (Some matches)"
| "collect_matches enum factlist (CE cond # rest) matches =
     (case get_activations enum factlist cond of
        Inl e \<Rightarrow> Inl e
      | Inr acts \<Rightarrow>
          if acts = [] then Inr None
          else collect_matches enum factlist rest (matches @ concat (map flatten_act acts)))"
| "collect_matches enum factlist (Pattern cond # rest) matches =
     (case store_matches factlist cond of
        Inl e \<Rightarrow> Inl e
      | Inr match \<Rightarrow>
          if match \<noteq> [] then collect_matches enum factlist rest (matches @ [match])
          else Inr None)"
| "collect_matches enum factlist (Opaque # rest) matches =
     collect_matches enum factlist rest matches"
| "or_inner enum factlist [] matches = Inr matches"
| "or_inner enum factlist (CE cond # rest) matches =
     (case get_activations enum factlist cond of
        Inl e \<Rightarrow> Inl e
      | Inr acts \<Rightarrow>
          if acts = [] then Inr matches
          else or_inner enum factlist rest (matches @ concat (map or_flatten_act acts)))"
| "or_inner enum factlist (Pattern cond # rest) matches =
     (case store_matches factlist cond of
        Inl e \<Rightarrow> Inl e
      | Inr match \<Rightarrow>
          if match \<noteq> [] then or_inner enum factlist rest (matches @ [FromPattern match])
          else or_inner enum factlist rest matches)"
| "or_inner enum factlist (Opaque # rest) matches = or_inner enum factlist rest matches"

text \<open>
  What is asked of \<open>enum\<close>: it enumerates the set of the elements of its argument, each
  element once.
\<close>

definition enum_ok :: "('a list \<Rightarrow> 'a list) \<Rightarrow> bool" where
  "enum_ok enum \<longleftrightarrow> (\<forall>xs. set (enum xs) = set xs \<and> distinct (enum xs))"

text \<open>
  The Activation of a conjunction for the selections \<open>(x, cx)\<close> of its first pattern and
  \<open>(y, cy)\<close> of its second: the sorted fact indexes without repetition, and the two
  bindings merged in this order, the second overwriting the first on the same fact.
\<close>

definition combination :: "'p ce \<Rightarrow> int \<Rightarrow> 'c option \<Rightarrow> int \<Rightarrow> 'c option \<Rightarrow> ('p, 'c) activation" where
  "combination self x cx y cy =
     Activation self
       (if x = y then [FactId x] else if x < y then [FactId x, FactId y] else [FactId y, FactId x])
       (if x = y then [(FactId x, cy)] else [(FactId x, cx), (FactId y, cy)])"


subsection \<open>\<^verbatim>\<open>Rule.__call__\<close>\<close>




subsection \<open>A working memory\<close>

text \<open>
  The sentinel is fact 0; two red facts, 1 and 2; two blue facts, 3 and 4; no green fact.
  The pattern \<open>Fact ''odd''\<close> is answered with an element that is not a pair.
\<close>

definition memory :: "string fact \<Rightarrow> (string \<times> string) list item list" where
  "memory p =
     (case p of
        InitialFact \<Rightarrow> [Item (FactId 0) (Some [])]
      | Fact colour \<Rightarrow>
          if colour = ''red'' then
            [Item (FactId 1) (Some [(''color'', ''red'')]), Item (FactId 2) (Some [(''color'', ''red'')])]
          else if colour = ''blue'' then
            [Item (FactId 3) (Some [(''color'', ''blue'')]), Item (FactId 4) (Some [(''color'', ''blue'')])]
          else if colour = ''odd'' then [EmptyTuple]
          else [])"

section \<open>Properties\<close>

lemma enum_ok_remdups: "enum_ok remdups"
  by (simp add: enum_ok_def)

lemma enum_ok_empty_iff: "enum_ok enum \<Longrightarrow> enum xs = [] \<longleftrightarrow> xs = []"
  unfolding enum_ok_def by (metis set_empty)

lemma enum_ok_Nil: "enum_ok enum \<Longrightarrow> enum [] = []"
  by (simp add: enum_ok_empty_iff)


subsection \<open>Evaluations on the working memory\<close>

lemma memory_red:
  "memory (Fact ''red'')
   = [Item (FactId 1) (Some [(''color'', ''red'')]), Item (FactId 2) (Some [(''color'', ''red'')])]"
  by (simp add: memory_def)

lemma memory_blue:
  "memory (Fact ''blue'')
   = [Item (FactId 3) (Some [(''color'', ''blue'')]), Item (FactId 4) (Some [(''color'', ''blue'')])]"
  by (simp add: memory_def)

lemma memory_green: "memory (Fact ''green'') = []"
  by (simp add: memory_def)

lemma memory_InitialFact: "memory InitialFact = [Item (FactId 0) (Some [])]"
  by (simp add: memory_def)

lemma memory_AND_red:
  "get_activations remdups (FactList memory) (AND [Pattern (Fact ''red'')])
   = Inr [Activation (AND [Pattern (Fact ''red'')]) [FactId 1] [(FactId 1, Some [(''color'', ''red'')])],
          Activation (AND [Pattern (Fact ''red'')]) [FactId 2] [(FactId 2, Some [(''color'', ''red'')])]]"
  by (simp add: memory_def yield_match_def)

lemma memory_AND_green:
  "get_activations remdups (FactList memory) (AND [Pattern (Fact ''green'')]) = Inr []"
  by (simp add: memory_def)


subsection \<open>Conjunction of two patterns\<close>

lemma yield_match_pair:
  "yield_match self [Item (FactId x) cx, Item (FactId y) cy] = Inr [combination self x cx y cy]"
  by (auto simp: yield_match_def combination_def)

lemma combination_fst:
  "combination self x cx y cy = combination self x' cx' y' cy' \<Longrightarrow> x = x'"
  by (auto simp: combination_def split: if_splits)

lemma combination_snd:
  "combination self x cx y cy = combination self x cx' y' cy' \<Longrightarrow> y = y'"
  by (auto simp: combination_def split: if_splits)

lemma Rule_two_patterns:
  assumes ok: "enum_ok enum" and ab: "a \<noteq> b" and cd: "c \<noteq> d"
    and m1: "m P1 = [Item (FactId a) ca, Item (FactId b) cb]"
    and m2: "m P2 = [Item (FactId c) cc, Item (FactId d) cd]"
  shows "\<exists>acts. Rule_get_activations enum (FactList m) self [Pattern P1, Pattern P2] = Inr acts
           \<and> set acts = {combination self a ca c cc, combination self a ca d cd,
                          combination self b cb c cc, combination self b cb d cd}
           \<and> distinct acts \<and> length acts = 4"
proof -
  let ?xs = "[combination self a ca c cc, combination self a ca d cd,
              combination self b cb c cc, combination self b cb d cd]"
  have prod: "product_lists [m P1, m P2]
      = [[Item (FactId a) ca, Item (FactId c) cc], [Item (FactId a) ca, Item (FactId d) cd],
         [Item (FactId b) cb, Item (FactId c) cc], [Item (FactId b) cb, Item (FactId d) cd]]"
    by (simp add: m1 m2)
  have coll: "collect_matches enum (FactList m) [Pattern P1, Pattern P2] [] = Inr (Some [m P1, m P2])"
    by (simp add: m1 m2)
  have loop: "product_loop self (product_lists [m P1, m P2]) = Inr ?xs"
    unfolding prod by (simp add: yield_match_pair)
  have res: "Rule_get_activations enum (FactList m) self [Pattern P1, Pattern P2] = Inr (enum ?xs)"
    by (simp only: Rule_get_activations.simps coll loop store.case sum.case option.case)
  have dist: "distinct ?xs"
    using ab cd by (auto dest: combination_fst combination_snd)
  have s: "set (enum ?xs) = set ?xs" and d: "distinct (enum ?xs)"
    using ok by (simp_all add: enum_ok_def)
  have "length (enum ?xs) = card (set (enum ?xs))"
    using d by (simp add: distinct_card)
  also have "\<dots> = card (set ?xs)" by (simp only: s)
  also have "\<dots> = length ?xs" using dist by (rule distinct_card)
  finally have len: "length (enum ?xs) = 4" by simp
  from res s d len show ?thesis by simp
qed

text \<open>
  C1: when the first pattern matches exactly the facts \<open>a\<close>, \<open>b\<close> and the second exactly the
  facts \<open>c\<close>, \<open>d\<close>, \<^verbatim>\<open>AND(P1, P2)\<close>, and likewise \<^verbatim>\<open>Rule(P1, P2)\<close>, returns exactly four
  distinct Activations, those of the combinations \<open>(a, c)\<close>, \<open>(a, d)\<close>, \<open>(b, c)\<close>, \<open>(b, d)\<close>,
  each with the contexts of its two selections merged.
\<close>

theorem AND_two_patterns:
  assumes ok: "enum_ok enum" and ab: "a \<noteq> b" and cd: "c \<noteq> d"
    and m1: "m P1 = [Item (FactId a) ca, Item (FactId b) cb]"
    and m2: "m P2 = [Item (FactId c) cc, Item (FactId d) cd]"
  shows "(\<exists>acts. get_activations enum (FactList m) (AND [Pattern P1, Pattern P2]) = Inr acts
           \<and> set acts = {combination (AND [Pattern P1, Pattern P2]) a ca c cc,
                          combination (AND [Pattern P1, Pattern P2]) a ca d cd,
                          combination (AND [Pattern P1, Pattern P2]) b cb c cc,
                          combination (AND [Pattern P1, Pattern P2]) b cb d cd}
           \<and> distinct acts \<and> length acts = 4)
       \<and> (\<exists>acts. get_activations enum (FactList m) (Rule [Pattern P1, Pattern P2]) = Inr acts
           \<and> set acts = {combination (Rule [Pattern P1, Pattern P2]) a ca c cc,
                          combination (Rule [Pattern P1, Pattern P2]) a ca d cd,
                          combination (Rule [Pattern P1, Pattern P2]) b cb c cc,
                          combination (Rule [Pattern P1, Pattern P2]) b cb d cd}
           \<and> distinct acts \<and> length acts = 4)"
  using Rule_two_patterns [OF assms, of "AND [Pattern P1, Pattern P2]"]
    Rule_two_patterns [OF assms, of "Rule [Pattern P1, Pattern P2]"]
  by (simp only: get_activations.simps)

theorem AND_two_patterns_witness:
  "enum_ok (remdups :: (string, (string \<times> string) list) activation list \<Rightarrow> _)
   \<and> (\<exists>acts. get_activations remdups (FactList memory)
                (AND [Pattern (Fact ''red''), Pattern (Fact ''blue'')]) = Inr acts
           \<and> set acts =
               {combination (AND [Pattern (Fact ''red''), Pattern (Fact ''blue'')])
                  1 (Some [(''color'', ''red'')]) 3 (Some [(''color'', ''blue'')]),
                combination (AND [Pattern (Fact ''red''), Pattern (Fact ''blue'')])
                  1 (Some [(''color'', ''red'')]) 4 (Some [(''color'', ''blue'')]),
                combination (AND [Pattern (Fact ''red''), Pattern (Fact ''blue'')])
                  2 (Some [(''color'', ''red'')]) 3 (Some [(''color'', ''blue'')]),
                combination (AND [Pattern (Fact ''red''), Pattern (Fact ''blue'')])
                  2 (Some [(''color'', ''red'')]) 4 (Some [(''color'', ''blue'')])}
           \<and> distinct acts \<and> length acts = 4)"
proof -
  have h1: "(1::int) \<noteq> 2" and h2: "(3::int) \<noteq> 4" by simp_all
  show ?thesis
    using AND_two_patterns [OF enum_ok_remdups h1 h2 memory_red memory_blue] enum_ok_remdups
    by blast
qed

subsection \<open>Negation\<close>

lemma yield_match_self:
  "yield_match self' t
   = map_sum id (map (\<lambda>a. Activation self' (facts a) (contexts a))) (yield_match self t)"
  by (simp add: yield_match_def split: sum.splits error.splits)

lemma product_loop_self:
  "product_loop self' ts
   = map_sum id (map (\<lambda>a. Activation self' (facts a) (contexts a))) (product_loop self ts)"
proof (induction ts)
  case Nil
  then show ?case by simp
next
  case (Cons t ts)
  show ?case
    using Cons.IH yield_match_self [of self' t self]
    by (simp split: sum.splits)
qed

lemma product_loop_self_Inr:
  "product_loop self ts = Inr xs \<Longrightarrow>
   product_loop self' ts = Inr (map (\<lambda>a. Activation self' (facts a) (contexts a)) xs)"
  using product_loop_self [of self' ts self] by simp

text \<open>
  The conjunction over the same children returns no Activation for one \<^verbatim>\<open>self\<close> exactly
  when it returns none for another: \<^verbatim>\<open>self\<close> is only recorded in the Activations.
\<close>

lemma Rule_get_activations_self:
  assumes ok: "enum_ok enum" and r: "Rule_get_activations enum s self conds = Inr xs"
  shows "\<exists>ys. Rule_get_activations enum s self' conds = Inr ys \<and> (ys = [] \<longleftrightarrow> xs = [])"
proof (cases s)
  case (NotFactList other)
  with r show ?thesis by simp
next
  case (FactList m)
  show ?thesis
  proof (cases "collect_matches enum s conds []")
    case (Inl e)
    with r FactList show ?thesis by simp
  next
    case (Inr opt)
    show ?thesis
    proof (cases opt)
      case None
      with r FactList Inr show ?thesis by simp
    next
      case (Some matches)
      show ?thesis
      proof (cases "product_loop self (product_lists matches)")
        case (Inl e)
        with r FactList Inr Some show ?thesis by simp
      next
        case inner: (Inr acts)
        from product_loop_self_Inr [OF inner, of self']
        have "Rule_get_activations enum s self' conds
            = Inr (enum (map (\<lambda>a. Activation self' (facts a) (contexts a)) acts))"
          using FactList Inr Some by simp
        moreover have "xs = enum acts"
          using r FactList Inr Some inner by simp
        ultimately show ?thesis
          by (simp add: enum_ok_empty_iff [OF ok])
      qed
    qed
  qed
qed

text \<open>
  C4: \<^verbatim>\<open>NOT\<close> returns no Activation when the conjunction of its children, evaluated as
  \<^verbatim>\<open>AND\<close> evaluates it, has one or more Activations. When that conjunction has none, \<^verbatim>\<open>NOT\<close>
  returns exactly one Activation, anchored to the first match \<open>(factidx, context)\<close> of the
  sentinel \<^verbatim>\<open>InitialFact\<close>: \<^verbatim>\<open>facts = (factidx,)\<close>, \<^verbatim>\<open>contexts = ((factidx, context),)\<close>; and
  when the sentinel has no match, \<^verbatim>\<open>NOT\<close> returns no Activation and raises nothing.
\<close>

theorem NOT_get_activations:
  assumes "enum_ok enum"
  shows "(get_activations enum (FactList m) (AND conds) = Inr acts \<and> acts \<noteq> []
            \<longrightarrow> get_activations enum (FactList m) (NOT conds) = Inr [])
       \<and> (get_activations enum (FactList m) (AND conds) = Inr []
            \<and> m InitialFact = Item factidx ctx # rest
            \<longrightarrow> get_activations enum (FactList m) (NOT conds)
                 = Inr [Activation (NOT conds) [factidx] [(factidx, ctx)]])
       \<and> (get_activations enum (FactList m) (AND conds) = Inr [] \<and> m InitialFact = []
            \<longrightarrow> get_activations enum (FactList m) (NOT conds) = Inr [])"
proof (intro conjI impI)
  assume "get_activations enum (FactList m) (AND conds) = Inr acts \<and> acts \<noteq> []"
  then have "Rule_get_activations enum (FactList m) (AND conds) conds = Inr acts" "acts \<noteq> []"
    by simp_all
  with Rule_get_activations_self [OF assms, of "FactList m" "AND conds" conds acts "NOT conds"]
  obtain ys where "Rule_get_activations enum (FactList m) (NOT conds) conds = Inr ys" "ys \<noteq> []"
    by blast
  then show "get_activations enum (FactList m) (NOT conds) = Inr []"
    by (simp del: Rule_get_activations.simps)
next
  assume "get_activations enum (FactList m) (AND conds) = Inr []
            \<and> m InitialFact = Item factidx ctx # rest"
  then have a: "Rule_get_activations enum (FactList m) (AND conds) conds = Inr []"
    and b: "m InitialFact = Item factidx ctx # rest"
    by simp_all
  from Rule_get_activations_self [OF assms a, of "NOT conds"]
  have "Rule_get_activations enum (FactList m) (NOT conds) conds = Inr []"
    by simp
  with b show "get_activations enum (FactList m) (NOT conds)
                 = Inr [Activation (NOT conds) [factidx] [(factidx, ctx)]]"
    by (simp del: Rule_get_activations.simps)
next
  assume "get_activations enum (FactList m) (AND conds) = Inr [] \<and> m InitialFact = []"
  then have a: "Rule_get_activations enum (FactList m) (AND conds) conds = Inr []"
    and b: "m InitialFact = []"
    by simp_all
  from Rule_get_activations_self [OF assms a, of "NOT conds"]
  have "Rule_get_activations enum (FactList m) (NOT conds) conds = Inr []"
    by simp
  with b show "get_activations enum (FactList m) (NOT conds) = Inr []"
    by (simp del: Rule_get_activations.simps)
qed

theorem NOT_get_activations_witness:
  "get_activations remdups (FactList memory) (NOT [Pattern (Fact ''red'')]) = Inr []
   \<and> get_activations remdups (FactList memory) (NOT [Pattern (Fact ''green'')])
       = Inr [Activation (NOT [Pattern (Fact ''green'')]) [FactId 0] [(FactId 0, Some [])]]
   \<and> get_activations remdups (FactList (\<lambda>p. [])) (NOT [Pattern (Fact ''green'')])
       = (Inr [] :: error + (string, (string \<times> string) list) activation list)"
proof -
  let ?acts = "[Activation (AND [Pattern (Fact ''red'')]) [FactId 1] [(FactId 1, Some [(''color'', ''red'')])],
          Activation (AND [Pattern (Fact ''red'')]) [FactId 2] [(FactId 2, Some [(''color'', ''red'')])]]"
  have ne: "?acts \<noteq> []" by simp
  have none: "get_activations remdups (FactList (\<lambda>p. [])) (AND [Pattern (Fact ''green'')])
      = (Inr [] :: error + (string, (string \<times> string) list) activation list)"
    by simp
  have nosentinel: "(\<lambda>p::string fact. [] :: (string \<times> string) list item list) InitialFact = []"
    by simp
  have "get_activations remdups (FactList memory) (NOT [Pattern (Fact ''red'')]) = Inr []"
    using NOT_get_activations [OF enum_ok_remdups, where m = memory
        and conds = "[Pattern (Fact ''red'')]" and acts = "?acts"]
      memory_AND_red ne by blast
  moreover have "get_activations remdups (FactList memory) (NOT [Pattern (Fact ''green'')])
       = Inr [Activation (NOT [Pattern (Fact ''green'')]) [FactId 0] [(FactId 0, Some [])]]"
    using NOT_get_activations [OF enum_ok_remdups, where m = memory
        and conds = "[Pattern (Fact ''green'')]" and factidx = "FactId 0" and ctx = "Some []"
        and rest = "[]"]
      memory_AND_green memory_InitialFact by blast
  moreover have "get_activations remdups (FactList (\<lambda>p. [])) (NOT [Pattern (Fact ''green'')])
       = (Inr [] :: error + (string, (string \<times> string) list) activation list)"
    using NOT_get_activations [OF enum_ok_remdups, where m = "\<lambda>p. []"
        and conds = "[Pattern (Fact ''green'')]"]
      none nosentinel by blast
  ultimately show ?thesis by blast
qed

subsection \<open>Deduplication\<close>




subsection \<open>Disjunction whose first child has no activation\<close>

lemma or_outer_fixed: "body acc = Inr acc \<Longrightarrow> or_outer body outer acc = Inr acc"
  by (induction outer) simp_all

text \<open>
  C10: when the first child of an \<^verbatim>\<open>OR\<close> is a composite conditional element whose
  evaluation returns no Activation, \<^verbatim>\<open>OR.get_activations\<close> returns no Activation, whatever
  the later children match.
\<close>

theorem OR_first_child_empty:
  assumes "get_activations enum s c = Inr []"
  shows "get_activations enum s (OR (CE c # rest)) = Inr []"
proof -
  have "or_inner enum s (CE c # rest) [] = Inr []"
    using assms by simp
  then have "or_outer (\<lambda>matches. or_inner enum s (CE c # rest) matches) (CE c # rest) [] = Inr []"
    by (rule or_outer_fixed)
  then show ?thesis by (simp del: or_inner.simps or_outer.simps)
qed

theorem OR_first_child_empty_witness:
  "get_activations remdups (FactList memory) (AND [Pattern (Fact ''green'')]) = Inr []
   \<and> memory (Fact ''blue'') \<noteq> []
   \<and> get_activations remdups (FactList memory)
       (OR [CE (AND [Pattern (Fact ''green'')]), Pattern (Fact ''blue'')]) = Inr []"
  using OR_first_child_empty [OF memory_AND_green, of "[Pattern (Fact ''blue'')]"]
    memory_AND_green memory_blue
  by (simp del: get_activations.simps)

subsection \<open>Short circuit of the conjunction\<close>

lemma collect_matches_break:
  assumes pre: "\<forall>x\<in>set pre. \<forall>r. x = CE r \<longrightarrow> (\<exists>acts. get_activations enum (FactList m) r = Inr acts)"
    and c: "(\<exists>p. c = Pattern p \<and> m p = []) \<or> (\<exists>r. c = CE r \<and> get_activations enum (FactList m) r = Inr [])"
  shows "collect_matches enum (FactList m) (pre @ c # post) matches = Inr None"
  using pre
proof (induction pre arbitrary: matches)
  case Nil
  from c show ?case by auto
next
  case (Cons x pre)
  show ?case
  proof (cases x)
    case (CE r)
    with Cons.prems obtain acts where "get_activations enum (FactList m) r = Inr acts" by auto
    with CE Cons show ?thesis by simp
  next
    case (Pattern p)
    with Cons show ?thesis by simp
  next
    case Opaque
    with Cons show ?thesis by simp
  qed
qed

text \<open>
  C5: when a child of a conjunction (\<^verbatim>\<open>Rule\<close> or \<^verbatim>\<open>AND\<close>) has no match, a pattern that no
  fact matches or a composite child without Activation, the conjunction returns no
  Activation, whatever the children before it match (they are evaluated, so they must not
  raise) and whatever the children after it are: these are not evaluated.
\<close>

theorem conjunction_short_circuit:
  assumes "enum_ok enum"
    and "\<forall>x\<in>set pre. \<forall>r. x = CE r \<longrightarrow> (\<exists>acts. get_activations enum (FactList m) r = Inr acts)"
    and "(\<exists>p. c = Pattern p \<and> m p = []) \<or> (\<exists>r. c = CE r \<and> get_activations enum (FactList m) r = Inr [])"
  shows "get_activations enum (FactList m) (Rule (pre @ c # post)) = Inr []
       \<and> get_activations enum (FactList m) (AND (pre @ c # post)) = Inr []"
  using collect_matches_break [OF assms(2,3), of post "[]"] enum_ok_Nil [OF assms(1)]
  by simp

theorem conjunction_short_circuit_witness:
  "get_activations remdups (FactList memory)
      (Rule [CE (AND [Pattern (Fact ''red'')]), Pattern (Fact ''green''), Pattern (Fact ''blue'')]) = Inr []
   \<and> get_activations remdups (FactList memory)
      (AND [CE (AND [Pattern (Fact ''red'')]), CE (AND [Pattern (Fact ''green'')]), CE (OR [Opaque])]) = Inr []"
proof -
  have pre: "\<forall>x\<in>set [CE (AND [Pattern (Fact ''red'')])]. \<forall>r. x = CE r \<longrightarrow>
      (\<exists>acts. get_activations remdups (FactList memory) r = Inr acts)"
    using memory_AND_red by simp
  have c1: "(\<exists>p. Pattern (Fact ''green'') = Pattern p \<and> memory p = [])
      \<or> (\<exists>r. Pattern (Fact ''green'') = CE r \<and> get_activations remdups (FactList memory) r = Inr [])"
    using memory_green by simp
  have c2: "(\<exists>p. CE (AND [Pattern (Fact ''green'')]) = Pattern p \<and> memory p = [])
      \<or> (\<exists>r. CE (AND [Pattern (Fact ''green'')]) = CE r \<and> get_activations remdups (FactList memory) r = Inr [])"
    using memory_AND_green by simp
  show ?thesis
    using conjunction_short_circuit [OF enum_ok_remdups pre c1, of "[Pattern (Fact ''blue'')]"]
      conjunction_short_circuit [OF enum_ok_remdups pre c2, of "[CE (OR [Opaque])]"]
    by (simp del: get_activations.simps)
qed


subsection \<open>Composite children of a conjunction\<close>













subsection \<open>A tuple with an element that is not a pair\<close>



lemma memory_odd: "memory (Fact ''odd'') = [EmptyTuple]"
  by (simp add: memory_def)



subsection \<open>Disjunction of two patterns\<close>

text \<open>
  C3 on the code: \<^verbatim>\<open>OR(red, blue)\<close> on a working memory with the red facts 1, 2 and the blue
  facts 3, 4. The two nested loops over the children accumulate each pattern twice, and
  \<^verbatim>\<open>facts\<close> holds, for each accumulated match list, its first pair \<^verbatim>\<open>(idx, context)\<close> in
  place of the fact identifiers 1, 2, 3, 4.
\<close>

theorem OR_two_patterns_evaluation:
  "get_activations enum (FactList memory) (OR [Pattern (Fact ''red''), Pattern (Fact ''blue'')])
   = Inr [Activation (OR [Pattern (Fact ''red''), Pattern (Fact ''blue'')])
            [MatchItem (Item (FactId 1) (Some [(''color'', ''red'')])),
             MatchItem (Item (FactId 3) (Some [(''color'', ''blue'')])),
             MatchItem (Item (FactId 1) (Some [(''color'', ''red'')])),
             MatchItem (Item (FactId 3) (Some [(''color'', ''blue'')]))]
            []]"
  by (simp add: memory_def)

subsection \<open>An argument that is not a FactList\<close>

text \<open>
  C7 on the code: \<^verbatim>\<open>Rule\<close>, \<^verbatim>\<open>AND\<close> and \<^verbatim>\<open>NOT\<close> raise \<^verbatim>\<open>ValueError\<close> for an argument that is
  not a \<^verbatim>\<open>FactList\<close>. \<^verbatim>\<open>OR.get_activations\<close> has no such check: with a pattern as first
  child it calls \<^verbatim>\<open>factlist.matches\<close>, which raises \<^verbatim>\<open>AttributeError\<close> on an object
  without that attribute and answers on an object that has it, and then \<^verbatim>\<open>OR\<close> returns an
  Activation.
\<close>

theorem OR_without_FactList_check:
  "get_activations enum (NotFactList other) (Rule conds) = Inl ValueError
   \<and> get_activations enum (NotFactList other) (AND conds) = Inl ValueError
   \<and> get_activations enum (NotFactList other) (NOT conds) = Inl ValueError
   \<and> get_activations enum (NotFactList None) (OR (Pattern p # rest)) = Inl AttributeError
   \<and> get_activations enum (NotFactList (Some memory)) (OR [Pattern (Fact ''blue'')])
     = Inr [Activation (OR [Pattern (Fact ''blue'')])
              [MatchItem (Item (FactId 3) (Some [(''color'', ''blue'')]))] []]"
  by (simp add: memory_def)

subsection \<open>Calling a rule without function\<close>









end
